theory Spec2Isabelle
  imports Main "HOL-Library.Sublist"
begin

section \<open>The click handler of ReviewXBlock (review.js)\<close>

text \<open>
  The repository's behaviour is one jQuery click handler bound to \<open>.review-button\<close>.
  It reads and writes DOM state (classes, attributes, element data) and browser state
  (interval timers, one-shot timeouts, the page's hostname). The embedding makes that
  state a record, the handler a function from a page to an outcome and a page, and the
  passing of time an event of its own, so that the 100ms timeout can fire.

  The page is one button with its content panel and the iframe in it (\<open>$content\<close> and
  \<open>$iframe\<close> select one element each, or \<open>$iframe\<close> none). An uncaught exception
  ends the handler where it is thrown. Line numbers are those of
  \<open>review/static/js/src/review.js\<close>.
\<close>

subsection \<open>JavaScript strings\<close>

text \<open>
  \<open>String.prototype.indexOf\<close>: the first position at which the needle occurs, or \<open>-1\<close>.
  \<open>String.prototype.includes\<close> answers whether there is such a position.
\<close>

fun indexOf_from :: "nat \<Rightarrow> string \<Rightarrow> string \<Rightarrow> int" where
  "indexOf_from i [] n = (if n = [] then int i else - 1)"
| "indexOf_from i (c # h) n =
     (if prefix n (c # h) then int i else indexOf_from (Suc i) h n)"

definition indexOf :: "string \<Rightarrow> string \<Rightarrow> int" where
  "indexOf h n = indexOf_from 0 h n"

definition str_includes :: "string \<Rightarrow> string \<Rightarrow> bool" where
  "str_includes h n = (indexOf h n \<noteq> - 1)"

text \<open>\<open>String.prototype.toLowerCase\<close> on the ASCII letters (a \<open>char\<close> is a byte).\<close>

definition lower_char :: "char \<Rightarrow> char" where
  "lower_char c =
     (case map_of (zip ''ABCDEFGHIJKLMNOPQRSTUVWXYZ'' ''abcdefghijklmnopqrstuvwxyz'') c of
        None \<Rightarrow> c
      | Some l \<Rightarrow> l)"

definition toLowerCase :: "string \<Rightarrow> string" where
  "toLowerCase s = map lower_char s"

subsection \<open>jQuery class lists\<close>

text \<open>
  The \<open>class\<close> attribute of an element, as the list of its tokens. \<open>hasClass\<close>,
  \<open>addClass\<close>, \<open>removeClass\<close> and \<open>toggleClass\<close> work on tokens: \<open>addClass\<close>
  appends a token that is not there, \<open>removeClass\<close> removes every occurrence,
  \<open>toggleClass\<close> removes the token when \<open>hasClass\<close> holds and adds it otherwise.
  \<open>attr('class')\<close> is the attribute's text; once \<open>addClass\<close> has rewritten the
  attribute (line 13 always does, before line 31 reads it) that text is the tokens
  joined by single spaces.
\<close>

definition hasClass :: "string list \<Rightarrow> string \<Rightarrow> bool" where
  "hasClass cs c = (c \<in> set cs)"

definition addClass :: "string list \<Rightarrow> string \<Rightarrow> string list" where
  "addClass cs c = (if hasClass cs c then cs else cs @ [c])"

definition removeClass :: "string list \<Rightarrow> string \<Rightarrow> string list" where
  "removeClass cs c = removeAll c cs"

definition toggleClass :: "string list \<Rightarrow> string \<Rightarrow> string list" where
  "toggleClass cs c = (if hasClass cs c then removeClass cs c else addClass cs c)"

fun class_attr :: "string list \<Rightarrow> string" where
  "class_attr [] = []"
| "class_attr [c] = c"
| "class_attr (c # d # cs) = c @ CHR '' '' # class_attr (d # cs)"

subsection \<open>The page\<close>

text \<open>
  What \<open>$btn.data('iframe-src')\<close> returns, as \<open>attr(name, value)\<close> treats it:
  \<open>undefined\<close> (no such data) makes \<open>attr\<close> a getter that writes nothing, \<open>null\<close>
  removes the attribute, every other value is written as its text.
\<close>

datatype js_value = Undefined | Null | Str string

text \<open>
  The iframe element: its \<open>src\<close> attribute (\<open>None\<close> when the attribute is absent, which
  \<open>attr('src')\<close> reads as \<open>undefined\<close>), its \<open>innerHTML\<close>, and its
  \<open>contentDocument\<close>, which is \<open>null\<close> (\<open>None\<close>) for a cross-origin frame and otherwise
  a document, of which only the title is read.
\<close>

record iframe_el =
  src :: "string option"
  innerHTML :: string
  contentDocument :: "string option"

text \<open>
  The state one button's handler reads and writes. \<open>iframe\<close> is \<open>$iframe['0']\<close>:
  \<open>None\<close> when the content panel has no iframe descendant. \<open>timers\<close> are the
  handles of the interval timers that are running, \<open>next_timer\<close> the handle the
  next \<open>setInterval\<close> returns, \<open>timeouts\<close> the pending \<open>setTimeout\<close> callbacks of
  line 15, each with its handle and the time (in ms) at which it is due,
  \<open>next_timeout\<close> the handle the next \<open>setTimeout\<close> returns, \<open>now\<close> the current
  time in ms.

  The handles are the browser's choice. It keeps timeouts and intervals in one table, so
  a handle names either, and nothing in the page keeps a handle stored on the button
  apart from the handle of a timeout.
\<close>

record page =
  hostname :: string
  btn_class :: "string list"
  aria_expanded :: "string option"
  data_iframe_src :: js_value
  intervalID :: "nat option"
  content_class :: "string list"
  iframe :: "iframe_el option"
  timers :: "nat list"
  next_timer :: nat
  timeouts :: "(nat \<times> nat) list"
  next_timeout :: nat
  now :: nat

datatype js_error = TypeError

datatype outcome = Skipped | Completed | Threw js_error

subsection \<open>The handler, line by line\<close>

text \<open>Lines 13 to 17: set the debounce flag and schedule its removal 100ms from now.\<close>

definition debounce :: "page \<Rightarrow> page" where
  "debounce s =
     s\<lparr>btn_class := addClass (btn_class s) ''disable-click'',
       timeouts := timeouts s @ [(next_timeout s, now s + 100)],
       next_timeout := Suc (next_timeout s)\<rparr>"

text \<open>\<open>$iframe.attr('src')\<close>: \<open>undefined\<close> on an empty selection or an absent attribute.\<close>

definition iframe_src :: "page \<Rightarrow> string option" where
  "iframe_src s = (case iframe s of None \<Rightarrow> None | Some f \<Rightarrow> src f)"

text \<open>Lines 21 to 23: the lazy load.\<close>

definition lazy_load :: "page \<Rightarrow> page" where
  "lazy_load s =
     (case iframe s of
        None \<Rightarrow> s
      | Some f \<Rightarrow>
          if src f = Some '''' then
            (case data_iframe_src s of
               Undefined \<Rightarrow> s
             | Null \<Rightarrow> s\<lparr>iframe := Some (f\<lparr>src := None\<rparr>)\<rparr>
             | Str u \<Rightarrow> s\<lparr>iframe := Some (f\<lparr>src := Some u\<rparr>)\<rparr>)
          else s)"

text \<open>
  \<open>clearInterval(h)\<close> takes the handle \<open>h\<close> out of the browser's table: it stops the
  interval timer with that handle and cancels a pending timeout with that handle. It
  does nothing when \<open>h\<close> is \<open>undefined\<close>. \<open>setInterval\<close> starts a timer and returns its
  handle. The timer's callback (line 35) writes only the iframe's \<open>height\<close>
  attribute, which nothing here reads.
\<close>

definition clearInterval :: "nat option \<Rightarrow> page \<Rightarrow> page" where
  "clearInterval h s =
     (case h of
        None \<Rightarrow> s
      | Some i \<Rightarrow>
          s\<lparr>timers := removeAll i (timers s),
            timeouts := filter (\<lambda>x. fst x \<noteq> i) (timeouts s)\<rparr>)"

definition setInterval :: "page \<Rightarrow> nat \<times> page" where
  "setInterval s =
     (next_timer s,
      s\<lparr>timers := timers s @ [next_timer s], next_timer := Suc (next_timer s)\<rparr>)"

text \<open>Lines 31 to 37: stop the polling timer of an active button, start one otherwise.\<close>

definition poll_timer :: "page \<Rightarrow> page" where
  "poll_timer s =
     (if str_includes (class_attr (btn_class s)) ''review-button--active''
      then clearInterval (intervalID s) s
      else (case setInterval s of (h, s') \<Rightarrow> s'\<lparr>intervalID := Some h\<rparr>))"

text \<open>
  Lines 42 to 51: the 404 check. \<open>$iframe['0'].innerHTML\<close> throws a TypeError when there
  is no iframe, \<open>contentDocument.title\<close> when \<open>contentDocument\<close> is \<open>null\<close>. Both branches
  of the title test are empty.
\<close>

definition detect_404 :: "page \<Rightarrow> js_error + page" where
  "detect_404 s =
     (case iframe s of
        None \<Rightarrow> Inl TypeError
      | Some f \<Rightarrow>
          if innerHTML f \<noteq> [] then
            (case contentDocument f of
               None \<Rightarrow> Inl TypeError
             | Some t \<Rightarrow>
                 (let title = toLowerCase t in
                  if 0 \<le> indexOf title ''page not found'' \<or> 0 \<le> indexOf title ''404''
                  then Inr s else Inr s))
          else Inr s)"

text \<open>Line 59: the new value of \<open>aria-expanded\<close>.\<close>

definition toggle_aria :: "string option \<Rightarrow> string" where
  "toggle_aria a = (if a = Some ''true'' then ''false'' else ''true'')"

text \<open>Lines 55 to 62: the three toggles.\<close>

definition toggles :: "page \<Rightarrow> page" where
  "toggles s =
     s\<lparr>btn_class := toggleClass (btn_class s) ''review-button--active'',
       aria_expanded := Some (toggle_aria (aria_expanded s)),
       content_class := toggleClass (content_class s) ''review-content--active''\<rparr>"

text \<open>
  The handler. An exception leaves the handler at once: what was written before it stays,
  what comes after it is not run.
\<close>

definition click :: "page \<Rightarrow> outcome \<times> page" where
  "click s =
     (if hasClass (btn_class s) ''disable-click'' then (Skipped, s)
      else
        (let s1 = lazy_load (debounce s) in
         if indexOf (hostname s1) ''studio'' = - 1 then
           (let s2 = poll_timer s1 in
            case detect_404 s2 of
              Inl e \<Rightarrow> (Threw e, s2)
            | Inr s3 \<Rightarrow> (Completed, toggles s3))
         else (Completed, toggles s1)))"

subsection \<open>Time and runs\<close>

text \<open>
  \<open>advance d\<close> lets \<open>d\<close> ms pass: every pending timeout that is due by then runs its
  callback (line 16, \<open>removeClass('disable-click')\<close>) and is gone.
\<close>

definition advance :: "nat \<Rightarrow> page \<Rightarrow> page" where
  "advance d s =
     (let t = now s + d in
      s\<lparr>now := t,
        timeouts := filter (\<lambda>x. t < snd x) (timeouts s),
        btn_class :=
          (if filter (\<lambda>x. snd x \<le> t) (timeouts s) = [] then btn_class s
           else removeClass (btn_class s) ''disable-click'')\<rparr>)"

datatype event = Click | Advance nat

fun step :: "event \<Rightarrow> page \<Rightarrow> page" where
  "step Click s = snd (click s)"
| "step (Advance d) s = advance d s"

fun run :: "event list \<Rightarrow> page \<Rightarrow> page" where
  "run [] s = s"
| "run (e # es) s = run es (step e s)"


subsection \<open>Derived notions\<close>

definition debounced :: "page \<Rightarrow> bool" where
  "debounced s = hasClass (btn_class s) ''disable-click''"

definition active :: "page \<Rightarrow> bool" where
  "active s = hasClass (btn_class s) ''review-button--active''"

definition visible :: "page \<Rightarrow> bool" where
  "visible s = hasClass (content_class s) ''review-content--active''"

definition expanded :: "page \<Rightarrow> bool" where
  "expanded s = (aria_expanded s = Some ''true'')"

text \<open>
  The polling timers are in order when the only timer that can be running is the one
  whose handle the button stores, and none runs while the button is inactive or the
  page is in Studio.
\<close>

definition timer_inv :: "page \<Rightarrow> bool" where
  "timer_inv s =
     (if active s \<and> indexOf (hostname s) ''studio'' = - 1 then
        (case intervalID s of None \<Rightarrow> timers s = [] | Some i \<Rightarrow> timers s = [] \<or> timers s = [i])
      else timers s = [])"

text \<open>
  The debounce flag is in order when no timeout is pending while it is clear, and at
  most one while it is set.
\<close>

definition flag_inv :: "page \<Rightarrow> bool" where
  "flag_inv s = (if debounced s then length (timeouts s) \<le> 1 else timeouts s = [])"

text \<open>
  The handle stored on the button lies below the handles that timeouts are given next,
  and interval handles are not ahead of them.
\<close>

definition handles_apart :: "page \<Rightarrow> bool" where
  "handles_apart s =
     (next_timer s \<le> next_timeout s \<and>
      (case intervalID s of None \<Rightarrow> True | Some i \<Rightarrow> i < next_timeout s))"

text \<open>The 404 check throws: there is no iframe, or fallback content and no document.\<close>

definition throws_404 :: "page \<Rightarrow> bool" where
  "throws_404 s =
     (case iframe s of
        None \<Rightarrow> True
      | Some f \<Rightarrow> innerHTML f \<noteq> [] \<and> contentDocument f = None)"

text \<open>No handler of the run throws.\<close>

fun throw_free :: "event list \<Rightarrow> page \<Rightarrow> bool" where
  "throw_free [] s = True"
| "throw_free (Click # es) s =
     (fst (click s) \<noteq> Threw TypeError \<and> throw_free es (snd (click s)))"
| "throw_free (Advance d # es) s = throw_free es (advance d s)"

text \<open>Every click of the run is debounced.\<close>

fun quiet :: "event list \<Rightarrow> page \<Rightarrow> bool" where
  "quiet [] s = True"
| "quiet (Click # es) s = (debounced s \<and> quiet es s)"
| "quiet (Advance d # es) s = quiet es (advance d s)"

text \<open>How often the iframe's \<open>src\<close> changes in a run.\<close>

fun src_changes :: "event list \<Rightarrow> page \<Rightarrow> nat" where
  "src_changes [] s = 0"
| "src_changes (e # es) s =
     (if iframe_src (step e s) = iframe_src s then 0 else 1) + src_changes es (step e s)"

subsection \<open>Pages to run the handler on\<close>

text \<open>
  The page as the LMS renders it: an inactive button, a hidden panel, an iframe with an
  empty \<open>src\<close> and no fallback content. The browser gives intervals the handles 1, 2,
  and so on, timeouts the handles from 1001 on.
\<close>

definition lms_page :: page where
  "lms_page =
     \<lparr>hostname = ''courses.edx.org'',
      btn_class = [''review-button''],
      aria_expanded = Some ''false'',
      data_iframe_src = Str ''https://courses.edx.org/review'',
      intervalID = None,
      content_class = [''review-content''],
      iframe = Some \<lparr>src = Some [], innerHTML = [], contentDocument = Some ''Review''\<rparr>,
      timers = [],
      next_timer = 1,
      timeouts = [],
      next_timeout = 1001,
      now = 0\<rparr>"

text \<open>The same page in Studio.\<close>

definition studio_page :: page where
  "studio_page = lms_page\<lparr>hostname := ''studio.edx.org''\<rparr>"

text \<open>A panel without an iframe.\<close>

definition bare_page :: page where
  "bare_page = lms_page\<lparr>iframe := None\<rparr>"

text \<open>An iframe with fallback content whose document is of another origin.\<close>

definition foreign_page :: page where
  "foreign_page =
     lms_page\<lparr>iframe :=
       Some \<lparr>src = Some ''https://example.org/review'', innerHTML = ''no frames'',
             contentDocument = None\<rparr>\<rparr>"

text \<open>A button whose \<open>aria-expanded\<close> says expanded while the class says inactive.\<close>

definition stale_aria_page :: page where
  "stale_aria_page = lms_page\<lparr>aria_expanded := Some ''true''\<rparr>"

text \<open>An inactive button with a second class whose name contains the active class's.\<close>

definition lookalike_page :: page where
  "lookalike_page = lms_page\<lparr>btn_class := [''review-button'', ''review-button--active-alt'']\<rparr>"

text \<open>An iframe without a \<open>src\<close> attribute, a button without \<open>aria-expanded\<close>.\<close>

definition no_attr_page :: page where
  "no_attr_page =
     lms_page\<lparr>aria_expanded := None,
       iframe := Some \<lparr>src = None, innerHTML = [], contentDocument = Some ''Review''\<rparr>\<rparr>"

text \<open>A frame of the page's own origin that shows an error page, with fallback content.\<close>

definition not_found_page :: page where
  "not_found_page =
     lms_page\<lparr>iframe :=
       Some \<lparr>src = Some ''https://courses.edx.org/gone'', innerHTML = ''no frames'',
             contentDocument = Some ''404 Page Not Found''\<rparr>\<rparr>"

text \<open>
  An open button that stores the handle of an interval that runs no more, and a browser
  that gives that handle out again, to the next timeout.
\<close>

definition stale_handle_page :: page where
  "stale_handle_page =
     lms_page\<lparr>btn_class := [''review-button'', ''review-button--active''],
       aria_expanded := Some ''true'',
       content_class := [''review-content'', ''review-content--active''],
       intervalID := Some 7,
       next_timer := 8,
       next_timeout := 7\<rparr>"

section \<open>Basic facts\<close>

subsection \<open>Strings and classes\<close>

lemma indexOf_from_ge: "indexOf_from i h n \<noteq> - 1 \<Longrightarrow> int i \<le> indexOf_from i h n"
proof (induction h arbitrary: i)
  case Nil
  then show ?case by (simp split: if_splits)
next
  case (Cons c h)
  show ?case
  proof (cases "prefix n (c # h)")
    case True
    then show ?thesis by simp
  next
    case False
    with Cons.prems have "indexOf_from (Suc i) h n \<noteq> - 1" by simp
    from Cons.IH [OF this] False show ?thesis by simp
  qed
qed

lemma indexOf_from_sublist: "indexOf_from i h n = - 1 \<longleftrightarrow> \<not> sublist n h"
  by (induction h arbitrary: i) (auto simp: sublist_Cons_right)

lemma indexOf_sublist: "indexOf h n = - 1 \<longleftrightarrow> \<not> sublist n h"
  by (simp add: indexOf_def indexOf_from_sublist)

lemma str_includes_sublist: "str_includes h n \<longleftrightarrow> sublist n h"
  by (simp add: str_includes_def indexOf_sublist)

lemma sublist_class_attr: "c \<in> set cs \<Longrightarrow> sublist c (class_attr cs)"
proof (induction cs rule: class_attr.induct)
  case 1
  then show ?case by simp
next
  case (2 a)
  then show ?case by simp
next
  case (3 a d cs)
  show ?case
  proof (cases "c = a")
    case True
    have "sublist c ([] @ c @ (CHR '' '' # class_attr (d # cs)))"
      by (rule sublist_appendI)
    with True show ?thesis by simp
  next
    case False
    with "3.prems" have "c \<in> set (d # cs)" by simp
    then have "sublist c (class_attr (d # cs))" by (rule "3.IH")
    then obtain ps ss where "class_attr (d # cs) = ps @ c @ ss"
      by (auto simp: sublist_def)
    then have "class_attr (a # d # cs) = (a @ CHR '' '' # ps) @ c @ ss" by simp
    then show ?thesis unfolding sublist_def by blast
  qed
qed

lemma hasClass_includes: "hasClass cs c \<Longrightarrow> str_includes (class_attr cs) c"
  by (simp add: hasClass_def str_includes_sublist sublist_class_attr)

lemma hasClass_addClass: "hasClass (addClass cs c) d \<longleftrightarrow> d = c \<or> hasClass cs d"
  by (auto simp: hasClass_def addClass_def)

lemma hasClass_removeClass: "hasClass (removeClass cs c) d \<longleftrightarrow> d \<noteq> c \<and> hasClass cs d"
  by (auto simp: hasClass_def removeClass_def)

lemma hasClass_toggleClass:
  "hasClass (toggleClass cs c) d = (if d = c then \<not> hasClass cs c else hasClass cs d)"
  by (auto simp: toggleClass_def hasClass_addClass hasClass_removeClass)


subsection \<open>What each part of the handler leaves alone\<close>

lemma debounce_frame [simp]:
  "hostname (debounce s) = hostname s"
  "aria_expanded (debounce s) = aria_expanded s"
  "data_iframe_src (debounce s) = data_iframe_src s"
  "intervalID (debounce s) = intervalID s"
  "content_class (debounce s) = content_class s"
  "iframe (debounce s) = iframe s"
  "timers (debounce s) = timers s"
  "next_timer (debounce s) = next_timer s"
  "now (debounce s) = now s"
  "btn_class (debounce s) = addClass (btn_class s) ''disable-click''"
  "timeouts (debounce s) = timeouts s @ [(next_timeout s, now s + 100)]"
  "next_timeout (debounce s) = Suc (next_timeout s)"
  by (simp_all add: debounce_def)

lemma lazy_load_frame [simp]:
  "hostname (lazy_load s) = hostname s"
  "btn_class (lazy_load s) = btn_class s"
  "aria_expanded (lazy_load s) = aria_expanded s"
  "data_iframe_src (lazy_load s) = data_iframe_src s"
  "intervalID (lazy_load s) = intervalID s"
  "content_class (lazy_load s) = content_class s"
  "timers (lazy_load s) = timers s"
  "next_timer (lazy_load s) = next_timer s"
  "timeouts (lazy_load s) = timeouts s"
  "next_timeout (lazy_load s) = next_timeout s"
  "now (lazy_load s) = now s"
  by (simp_all add: lazy_load_def split: option.split js_value.split)

lemma poll_timer_frame [simp]:
  "hostname (poll_timer s) = hostname s"
  "btn_class (poll_timer s) = btn_class s"
  "aria_expanded (poll_timer s) = aria_expanded s"
  "data_iframe_src (poll_timer s) = data_iframe_src s"
  "content_class (poll_timer s) = content_class s"
  "iframe (poll_timer s) = iframe s"
  "next_timeout (poll_timer s) = next_timeout s"
  "now (poll_timer s) = now s"
  by (simp_all add: poll_timer_def clearInterval_def setInterval_def split: option.split)

lemma toggles_frame [simp]:
  "hostname (toggles s) = hostname s"
  "data_iframe_src (toggles s) = data_iframe_src s"
  "intervalID (toggles s) = intervalID s"
  "iframe (toggles s) = iframe s"
  "timers (toggles s) = timers s"
  "next_timer (toggles s) = next_timer s"
  "timeouts (toggles s) = timeouts s"
  "next_timeout (toggles s) = next_timeout s"
  "now (toggles s) = now s"
  "btn_class (toggles s) = toggleClass (btn_class s) ''review-button--active''"
  "aria_expanded (toggles s) = Some (toggle_aria (aria_expanded s))"
  "content_class (toggles s) = toggleClass (content_class s) ''review-content--active''"
  by (simp_all add: toggles_def)

lemma detect_404_cases: "detect_404 s = Inr s \<or> detect_404 s = Inl TypeError"
  by (simp add: detect_404_def split: option.split)

text \<open>The four ways through the handler.\<close>

lemma click_cases [case_names Skipped Studio Threw Completed]:
  obtains
    (Skipped) "debounced s" "click s = (Skipped, s)"
  | (Studio) "\<not> debounced s" "indexOf (hostname s) ''studio'' \<noteq> - 1"
      "click s = (Completed, toggles (lazy_load (debounce s)))"
  | (Threw) "\<not> debounced s" "indexOf (hostname s) ''studio'' = - 1"
      "detect_404 (poll_timer (lazy_load (debounce s))) = Inl TypeError"
      "click s = (Threw TypeError, poll_timer (lazy_load (debounce s)))"
  | (Completed) "\<not> debounced s" "indexOf (hostname s) ''studio'' = - 1"
      "detect_404 (poll_timer (lazy_load (debounce s))) =
         Inr (poll_timer (lazy_load (debounce s)))"
      "click s = (Completed, toggles (poll_timer (lazy_load (debounce s))))"
proof (cases "debounced s")
  case True
  then have "click s = (Skipped, s)" by (simp add: click_def debounced_def)
  with True show ?thesis by (rule Skipped)
next
  case nd: False
  show ?thesis
  proof (cases "indexOf (hostname s) ''studio'' = - 1")
    case False
    with nd have "click s = (Completed, toggles (lazy_load (debounce s)))"
      by (simp add: click_def debounced_def)
    with nd False show ?thesis by (rule Studio)
  next
    case True
    from detect_404_cases [of "poll_timer (lazy_load (debounce s))"] show ?thesis
    proof
      assume d: "detect_404 (poll_timer (lazy_load (debounce s))) =
         Inr (poll_timer (lazy_load (debounce s)))"
      with nd True have "click s = (Completed, toggles (poll_timer (lazy_load (debounce s))))"
        by (simp add: click_def debounced_def)
      with nd True d show ?thesis by (rule Completed)
    next
      assume d: "detect_404 (poll_timer (lazy_load (debounce s))) = Inl TypeError"
      with nd True have "click s = (Threw TypeError, poll_timer (lazy_load (debounce s)))"
        by (simp add: click_def debounced_def)
      with nd True d show ?thesis by (rule Threw)
    qed
  qed
qed

lemma click_skipped: "debounced s \<Longrightarrow> click s = (Skipped, s)"
  by (simp add: click_def debounced_def)


lemma click_debounced: "debounced (snd (click s))"
  by (cases s rule: click_cases)
     (simp_all add: debounced_def hasClass_addClass hasClass_toggleClass)

text \<open>
  The timer branch takes timeouts away (when \<open>clearInterval\<close> is given the handle of
  one) and adds none.
\<close>

lemma poll_timer_timeouts:
  "timeouts (poll_timer s) =
     (if str_includes (class_attr (btn_class s)) ''review-button--active'' then
        (case intervalID s of
           None \<Rightarrow> timeouts s
         | Some i \<Rightarrow> filter (\<lambda>x. fst x \<noteq> i) (timeouts s))
      else timeouts s)"
  by (simp add: poll_timer_def clearInterval_def setInterval_def split: option.split)


lemma poll_timer_timeouts_length: "length (timeouts (poll_timer s)) \<le> length (timeouts s)"
  by (simp add: poll_timer_timeouts split: option.split)


lemma click_timeouts_length: "length (timeouts (snd (click s))) \<le> Suc (length (timeouts s))"
proof (cases s rule: click_cases)
  case Skipped
  then show ?thesis by simp
next
  case Studio
  then show ?thesis by simp
next
  case Threw
  with poll_timer_timeouts_length [of "lazy_load (debounce s)"] show ?thesis by simp
next
  case Completed
  with poll_timer_timeouts_length [of "lazy_load (debounce s)"] show ?thesis by simp
qed





subsection \<open>Evaluation\<close>


lemmas page_defs = lms_page_def studio_page_def bare_page_def foreign_page_def
  stale_aria_page_def lookalike_page_def no_attr_page_def not_found_page_def
  stale_handle_page_def

lemmas eval_defs = click_def debounce_def lazy_load_def poll_timer_def detect_404_def
  toggles_def clearInterval_def setInterval_def advance_def
  hasClass_def addClass_def removeClass_def toggleClass_def toggle_aria_def
  indexOf_def str_includes_def toLowerCase_def lower_char_def
  debounced_def active_def visible_def expanded_def iframe_src_def timer_inv_def
  throws_404_def

subsection \<open>The debounce flag and its timeout\<close>

text \<open>
  On a page that starts without the flag and without a pending timeout, the flag stays
  in order: a click that is processed finds no timeout pending.
\<close>

lemma click_flag_inv: "flag_inv s \<Longrightarrow> flag_inv (snd (click s))"
proof (cases "debounced s")
  case True
  assume "flag_inv s"
  with True show ?thesis by (simp add: click_skipped)
next
  case False
  assume "flag_inv s"
  with False click_timeouts_length [of s] have "length (timeouts (snd (click s))) \<le> 1"
    by (simp add: flag_inv_def)
  then show ?thesis by (simp add: flag_inv_def click_debounced)
qed

lemma advance_flag_inv: "flag_inv s \<Longrightarrow> flag_inv (advance d s)"
proof (cases "debounced s")
  case True
  assume "flag_inv s"
  with True have "length (timeouts s) \<le> 1" by (simp add: flag_inv_def)
  with length_filter_le [of "\<lambda>x. now s + d < snd x" "timeouts s"]
  have "length (filter (\<lambda>x. now s + d < snd x) (timeouts s)) \<le> 1"
    by (rule order_trans)
  moreover have "filter (\<lambda>x. now s + d < snd x) (timeouts s) = []"
    if "filter (\<lambda>x. snd x \<le> now s + d) (timeouts s) \<noteq> []"
  proof -
    from True \<open>flag_inv s\<close> that obtain x where "timeouts s = [x]"
      by (cases "timeouts s") (auto simp: flag_inv_def)
    with that show ?thesis by (auto split: if_splits)
  qed
  ultimately show ?thesis
    using True
    by (simp add: flag_inv_def advance_def Let_def debounced_def hasClass_removeClass)
next
  case False
  assume "flag_inv s"
  with False show ?thesis
    by (simp add: flag_inv_def advance_def Let_def debounced_def)
qed

lemma run_flag_inv: "flag_inv s \<Longrightarrow> flag_inv (run es s)"
proof (induction es arbitrary: s)
  case Nil
  then show ?case by simp
next
  case (Cons e es)
  then have "flag_inv (step e s)"
    by (cases e) (simp_all add: click_flag_inv advance_flag_inv)
  then show ?case using Cons.IH by simp
qed

lemma processed_click_no_timeout:
  "flag_inv s \<Longrightarrow> \<not> debounced (run es s) \<Longrightarrow> timeouts (run es s) = []"
  using run_flag_inv [of s es] by (simp add: flag_inv_def)

section \<open>The claims\<close>

subsection \<open>C1: a debounced click does nothing\<close>



subsection \<open>C2: the polling timer and the active class\<close>

lemma active_debounce [simp]: "active (debounce s) = active s"
  by (simp add: active_def hasClass_addClass)

lemma active_lazy_load [simp]: "active (lazy_load s) = active s"
  by (simp add: active_def)

lemma active_poll_timer [simp]: "active (poll_timer s) = active s"
  by (simp add: active_def)

lemma active_toggles [simp]: "active (toggles s) = (\<not> active s)"
  by (simp add: active_def hasClass_toggleClass)

lemma active_advance [simp]: "active (advance d s) = active s"
  by (simp add: active_def advance_def Let_def hasClass_removeClass)

lemma active_includes: "active s \<Longrightarrow> str_includes (class_attr (btn_class s)) ''review-button--active''"
  by (simp add: active_def hasClass_includes)

lemma advance_frame [simp]:
  "hostname (advance d s) = hostname s"
  "aria_expanded (advance d s) = aria_expanded s"
  "data_iframe_src (advance d s) = data_iframe_src s"
  "intervalID (advance d s) = intervalID s"
  "content_class (advance d s) = content_class s"
  "iframe (advance d s) = iframe s"
  "timers (advance d s) = timers s"
  "next_timer (advance d s) = next_timer s"
  "now (advance d s) = now s + d"
  by (simp_all add: advance_def Let_def)

lemma poll_timer_stop:
  assumes "str_includes (class_attr (btn_class s)) ''review-button--active''"
  shows "timers (poll_timer s) =
           (case intervalID s of None \<Rightarrow> timers s | Some i \<Rightarrow> removeAll i (timers s))"
    and "intervalID (poll_timer s) = intervalID s"
    and "next_timer (poll_timer s) = next_timer s"
  using assms by (simp_all add: poll_timer_def clearInterval_def split: option.split)

lemma poll_timer_start:
  assumes "\<not> str_includes (class_attr (btn_class s)) ''review-button--active''"
  shows "timers (poll_timer s) = timers s @ [next_timer s]"
    and "intervalID (poll_timer s) = Some (next_timer s)"
    and "next_timer (poll_timer s) = Suc (next_timer s)"
  using assms by (simp_all add: poll_timer_def setInterval_def)

lemma poll_timer_inv:
  assumes inv: "timer_inv s" and lms: "indexOf (hostname s) ''studio'' = - 1"
  shows "timer_inv (toggles (poll_timer s))"
proof (cases "str_includes (class_attr (btn_class s)) ''review-button--active''")
  case True
  show ?thesis
  proof (cases "active s")
    case True
    with inv lms have "timers (poll_timer s) = []"
      by (auto simp: timer_inv_def poll_timer_stop [OF \<open>str_includes _ _\<close>] split: option.splits)
    with True show ?thesis by (simp add: timer_inv_def)
  next
    case False
    with inv have "timers s = []" by (simp add: timer_inv_def)
    then have "timers (poll_timer s) = []"
      by (simp add: poll_timer_stop [OF True] split: option.split)
    then show ?thesis by (simp add: timer_inv_def split: option.split)
  qed
next
  case False
  then have na: "\<not> active s" using active_includes by blast
  with inv have "timers s = []" by (simp add: timer_inv_def)
  with na lms show ?thesis by (simp add: timer_inv_def poll_timer_start [OF False])
qed

lemma timer_inv_frame:
  "timers t = timers s \<Longrightarrow> intervalID t = intervalID s \<Longrightarrow> hostname t = hostname s \<Longrightarrow>
   active t = active s \<Longrightarrow> timer_inv t = timer_inv s"
  by (simp add: timer_inv_def split: option.split)

lemma click_timer_inv:
  assumes "timer_inv s" and "fst (click s) \<noteq> Threw TypeError"
  shows "timer_inv (snd (click s))"
proof (cases s rule: click_cases)
  case Skipped
  with assms show ?thesis by simp
next
  case Studio
  with assms show ?thesis by (simp add: timer_inv_def)
next
  case Threw
  with assms show ?thesis by simp
next
  case Completed
  have "timer_inv (lazy_load (debounce s))"
    using assms(1) timer_inv_frame [of "lazy_load (debounce s)" s] by simp
  then have "timer_inv (toggles (poll_timer (lazy_load (debounce s))))"
    using Completed(2) by (intro poll_timer_inv) simp_all
  with Completed show ?thesis by simp
qed

lemma advance_timer_inv: "timer_inv s \<Longrightarrow> timer_inv (advance d s)"
  using timer_inv_frame [of "advance d s" s] by simp

lemma timer_inv_claimed:
  "timer_inv s \<Longrightarrow> (active s \<or> timers s = []) \<and> length (timers s) \<le> 1"
  by (auto simp: timer_inv_def split: if_splits option.splits)

lemma run_timer_inv: "timer_inv s \<Longrightarrow> throw_free es s \<Longrightarrow> timer_inv (run es s)"
proof (induction es arbitrary: s)
  case Nil
  then show ?case by simp
next
  case (Cons e es)
  show ?case
  proof (cases e)
    case Click
    with Cons.prems have "fst (click s) \<noteq> Threw TypeError" and "throw_free es (snd (click s))"
      by simp_all
    with Cons.prems(1) have "timer_inv (run es (snd (click s)))"
      by (intro Cons.IH click_timer_inv)
    with Click show ?thesis by simp
  next
    case (Advance d)
    with Cons.prems have "timer_inv (run es (advance d s))"
      by (intro Cons.IH advance_timer_inv) simp_all
    with Advance show ?thesis by simp
  qed
qed

text \<open>
  C2, as the code has it. Take a page whose timers are in order (\<open>timer_inv\<close>: no timer
  runs while the button lacks \<open>review-button--active\<close> or the page is in Studio, and a
  running timer is the one whose handle the button stores; a page with no timer running
  is such a page). After every run of clicks and pauses in which no handler throws, the
  timers are in order again: no timer runs while the button lacks the class, and at most
  one timer runs.
\<close>

theorem polling_timer_invariant:
  "timer_inv s \<Longrightarrow> throw_free es s \<Longrightarrow>
   timer_inv (run es s) \<and>
   (active (run es s) \<or> timers (run es s) = []) \<and> length (timers (run es s)) \<le> 1"
proof -
  assume "timer_inv s" and "throw_free es s"
  then have "timer_inv (run es s)" by (rule run_timer_inv)
  with timer_inv_claimed [OF this] show ?thesis by simp
qed

text \<open>On the LMS page: activate, wait, deactivate, wait, activate.\<close>

theorem polling_timer_invariant_witness:
  "timer_inv lms_page \<and>
   throw_free [Click, Advance 100, Click, Advance 100, Click] lms_page \<and>
   timer_inv (run [Click, Advance 100, Click, Advance 100, Click] lms_page) \<and>
   active (run [Click, Advance 100, Click, Advance 100, Click] lms_page) \<and>
   timers (run [Click, Advance 100, Click, Advance 100, Click] lms_page) = [2]"
  using polling_timer_invariant [of lms_page "[Click, Advance 100, Click, Advance 100, Click]"]
  by (simp add: page_defs eval_defs)

text \<open>
  The claim as stated, for every click, fails where the handler throws between starting
  the timer (line 34) and toggling the class (line 55). Without an iframe,
  \<open>$iframe['0'].innerHTML\<close> on line 42 throws: the first click leaves a timer running
  on an inactive button, the second starts another one.
\<close>

theorem polling_timer_invariant_counterexample:
  "timer_inv bare_page \<and>
   fst (click bare_page) = Threw TypeError \<and>
   \<not> active (snd (click bare_page)) \<and>
   timers (snd (click bare_page)) = [1] \<and>
   \<not> active (run [Click, Advance 100, Click] bare_page) \<and>
   timers (run [Click, Advance 100, Click] bare_page) = [1, 2]"
  by (simp add: page_defs eval_defs)

subsection \<open>C3: the lazy load\<close>

lemma iframe_src_lazy_load:
  "iframe_src (lazy_load s) =
     (if iframe_src s = Some [] then
        (case data_iframe_src s of Undefined \<Rightarrow> Some [] | Null \<Rightarrow> None | Str u \<Rightarrow> Some u)
      else iframe_src s)"
  by (simp add: iframe_src_def lazy_load_def split: option.split js_value.split)

lemma iframe_src_click:
  "iframe_src (snd (click s)) =
     (if debounced s then iframe_src s else iframe_src (lazy_load (debounce s)))"
  by (cases s rule: click_cases) (simp_all add: iframe_src_def)

lemma iframe_src_advance [simp]: "iframe_src (advance d s) = iframe_src s"
  by (simp add: iframe_src_def)

lemma iframe_src_debounce [simp]: "iframe_src (debounce s) = iframe_src s"
  by (simp add: iframe_src_def)

text \<open>A step changes the \<open>src\<close> only when it is the empty string.\<close>

lemma step_src_kept: "iframe_src s \<noteq> Some [] \<Longrightarrow> iframe_src (step e s) = iframe_src s"
  by (cases e) (simp_all add: iframe_src_click iframe_src_lazy_load)

lemma run_src_kept: "iframe_src s \<noteq> Some [] \<Longrightarrow> iframe_src (run es s) = iframe_src s"
proof (induction es arbitrary: s)
  case Nil
  then show ?case by simp
next
  case (Cons e es)
  from Cons.prems have "iframe_src (step e s) = iframe_src s" by (rule step_src_kept)
  with Cons.prems Cons.IH [of "step e s"] show ?case by simp
qed

lemma src_changes_none: "iframe_src s \<noteq> Some [] \<Longrightarrow> src_changes es s = 0"
proof (induction es arbitrary: s)
  case Nil
  then show ?case by simp
next
  case (Cons e es)
  from Cons.prems have "iframe_src (step e s) = iframe_src s" by (rule step_src_kept)
  with Cons.prems Cons.IH [of "step e s"] show ?case by simp
qed

lemma src_changes_once: "src_changes es s \<le> 1"
proof (induction es arbitrary: s)
  case Nil
  then show ?case by simp
next
  case (Cons e es)
  show ?case
  proof (cases "iframe_src (step e s) = iframe_src s")
    case True
    with Cons.IH [of "step e s"] show ?thesis by simp
  next
    case False
    then have "iframe_src s = Some []" using step_src_kept by blast
    with False have "iframe_src (step e s) \<noteq> Some []" by simp
    then have "src_changes es (step e s) = 0" by (rule src_changes_none)
    with False show ?thesis by simp
  qed
qed

text \<open>
  C3. A processed click that finds the iframe's \<open>src\<close> unset (the empty string, as
  line 21 tests it) sets it to what \<open>data('iframe-src')\<close> holds (a text \<open>u\<close>: the
  button has the data attribute). In every run of clicks and pauses the value of the
  \<open>src\<close> changes at most once, and a \<open>src\<close> that is not empty stays what it is.
\<close>

theorem lazy_load_once:
  "(\<not> debounced s \<and> iframe_src s = Some [] \<and> data_iframe_src s = Str u \<longrightarrow>
      iframe_src (snd (click s)) = Some u) \<and>
   src_changes es s \<le> 1 \<and>
   (iframe_src s = Some v \<and> v \<noteq> [] \<longrightarrow> iframe_src (run es s) = Some v)"
proof (intro conjI impI)
  assume "\<not> debounced s \<and> iframe_src s = Some [] \<and> data_iframe_src s = Str u"
  then show "iframe_src (snd (click s)) = Some u"
    by (simp add: iframe_src_click iframe_src_lazy_load)
next
  show "src_changes es s \<le> 1" by (rule src_changes_once)
next
  assume "iframe_src s = Some v \<and> v \<noteq> []"
  then show "iframe_src (run es s) = Some v" using run_src_kept [of s es] by simp
qed

text \<open>
  On the LMS page the first click loads the frame; the \<open>src\<close> it set is still there
  after the button has been closed and opened again.
\<close>

theorem lazy_load_once_witness:
  "\<not> debounced lms_page \<and> iframe_src lms_page = Some [] \<and>
   data_iframe_src lms_page = Str ''https://courses.edx.org/review'' \<and>
   iframe_src (snd (click lms_page)) = Some ''https://courses.edx.org/review'' \<and>
   src_changes [Click, Advance 100, Click, Advance 100, Click] lms_page = 1 \<and>
   iframe_src (run [Advance 100, Click, Advance 100, Click] (snd (click lms_page))) =
     Some ''https://courses.edx.org/review''"
  using lazy_load_once [of lms_page "''https://courses.edx.org/review''"
      "[Click, Advance 100, Click, Advance 100, Click]"]
    lazy_load_once [of "snd (click lms_page)" _ "[Advance 100, Click, Advance 100, Click]"
      "''https://courses.edx.org/review''"]
  by (simp add: page_defs eval_defs)

subsection \<open>C4: the active class and aria-expanded\<close>

lemma expanded_toggles [simp]: "expanded (toggles s) = (\<not> expanded s)"
  by (simp add: expanded_def toggle_aria_def)

lemma expanded_frame:
  "aria_expanded t = aria_expanded s \<Longrightarrow> expanded t = expanded s"
  by (simp add: expanded_def)

lemma click_completed_active:
  "fst (click s) = Completed \<Longrightarrow> active (snd (click s)) = (\<not> active s)"
  by (cases s rule: click_cases) simp_all

lemma click_completed_expanded:
  "fst (click s) = Completed \<Longrightarrow> expanded (snd (click s)) = (\<not> expanded s)"
  by (cases s rule: click_cases) (simp_all add: expanded_def toggle_aria_def)

lemma click_completed_aria:
  "fst (click s) = Completed \<Longrightarrow>
   aria_expanded (snd (click s)) = Some (if expanded s then ''false'' else ''true'')"
  by (cases s rule: click_cases) (simp_all add: expanded_def toggle_aria_def)

lemma click_other_active:
  "fst (click s) \<noteq> Completed \<Longrightarrow> active (snd (click s)) = active s"
  by (cases s rule: click_cases) simp_all

lemma click_other_aria:
  "fst (click s) \<noteq> Completed \<Longrightarrow> aria_expanded (snd (click s)) = aria_expanded s"
  by (cases s rule: click_cases) simp_all


text \<open>
  C4, as the code has it. A click whose handler runs to the end flips both the
  \<open>review-button--active\<close> class and the truth of \<open>aria-expanded = 'true'\<close>, and leaves
  \<open>aria-expanded\<close> at \<open>'true'\<close> or \<open>'false'\<close>; every other click (debounced, or one
  whose handler throws before line 55) changes neither the class nor the attribute. So
  the two agree after a click exactly when they agreed before it: agreement is kept, not
  made.
\<close>

theorem active_aria_lockstep:
  "(fst (click s) = Completed \<longrightarrow>
      active (snd (click s)) = (\<not> active s) \<and>
      expanded (snd (click s)) = (\<not> expanded s) \<and>
      aria_expanded (snd (click s)) = Some (if expanded s then ''false'' else ''true'')) \<and>
   (fst (click s) \<noteq> Completed \<longrightarrow>
      active (snd (click s)) = active s \<and>
      aria_expanded (snd (click s)) = aria_expanded s) \<and>
   (active (snd (click s)) = expanded (snd (click s))) = (active s = expanded s)"
proof (cases "fst (click s) = Completed")
  case True
  then show ?thesis
    using click_completed_active [of s] click_completed_expanded [of s]
      click_completed_aria [of s]
    by auto
next
  case False
  then show ?thesis
    using click_other_active [of s] click_other_aria [of s]
    by (simp add: expanded_def)
qed

text \<open>
  On the LMS page class and attribute agree before the click and after it; a second,
  debounced click changes neither, and neither does a click that throws.
\<close>

theorem active_aria_lockstep_witness:
  "fst (click lms_page) = Completed \<and>
   \<not> active lms_page \<and> \<not> expanded lms_page \<and>
   active (snd (click lms_page)) \<and> expanded (snd (click lms_page)) \<and>
   aria_expanded (snd (click lms_page)) = Some ''true'' \<and>
   fst (click (snd (click lms_page))) = Skipped \<and>
   active (snd (click (snd (click lms_page)))) \<and>
   aria_expanded (snd (click (snd (click lms_page)))) = Some ''true'' \<and>
   fst (click bare_page) = Threw TypeError \<and>
   \<not> active (snd (click bare_page)) \<and>
   aria_expanded (snd (click bare_page)) = Some ''false''"
  using active_aria_lockstep [of lms_page] active_aria_lockstep [of "snd (click lms_page)"]
    active_aria_lockstep [of bare_page]
  by (simp add: page_defs eval_defs)

text \<open>
  The claim as stated, for every initial state of the two, fails: a button without the
  class whose \<open>aria-expanded\<close> is \<open>'true'\<close> has the class and \<open>aria-expanded = 'false'\<close>
  after the click.
\<close>

theorem active_aria_lockstep_counterexample:
  "fst (click stale_aria_page) = Completed \<and>
   active (snd (click stale_aria_page)) \<and>
   aria_expanded (snd (click stale_aria_page)) = Some ''false'' \<and>
   \<not> expanded (snd (click stale_aria_page))"
  by (simp add: page_defs eval_defs)

subsection \<open>C5: no polling timer in Studio\<close>

lemma click_studio:
  assumes "indexOf (hostname s) ''studio'' \<noteq> - 1"
  shows "timers (snd (click s)) = timers s"
    and "next_timer (snd (click s)) = next_timer s"
    and "intervalID (snd (click s)) = intervalID s"
  using assms by (cases s rule: click_cases; simp)+

lemma click_hostname [simp]: "hostname (snd (click s)) = hostname s"
  by (cases s rule: click_cases) simp_all

lemma step_hostname [simp]: "hostname (step e s) = hostname s"
  by (cases e) simp_all

lemma step_studio:
  assumes "indexOf (hostname s) ''studio'' \<noteq> - 1"
  shows "timers (step e s) = timers s \<and> next_timer (step e s) = next_timer s \<and>
         intervalID (step e s) = intervalID s"
  using assms by (cases e) (simp_all add: click_studio)

lemma run_studio:
  "indexOf (hostname s) ''studio'' \<noteq> - 1 \<Longrightarrow>
   timers (run es s) = timers s \<and> next_timer (run es s) = next_timer s \<and>
   intervalID (run es s) = intervalID s"
proof (induction es arbitrary: s)
  case Nil
  then show ?case by simp
next
  case (Cons e es)
  from Cons.prems have "indexOf (hostname (step e s)) ''studio'' \<noteq> - 1" by simp
  from Cons.IH [OF this] step_studio [OF Cons.prems, of e] show ?case by simp
qed

text \<open>
  C5. On a page whose hostname contains \<open>studio\<close>, no run of clicks and pauses starts a
  polling timer: the running timers, the handle that the next \<open>setInterval\<close> would
  return and the handle stored on the button are what they were.
\<close>

theorem studio_starts_no_timer:
  "sublist ''studio'' (hostname s) \<Longrightarrow>
   timers (run es s) = timers s \<and> next_timer (run es s) = next_timer s \<and>
   intervalID (run es s) = intervalID s"
  by (rule run_studio) (simp add: indexOf_sublist)

text \<open>In Studio the button opens and closes again with no timer.\<close>

theorem studio_starts_no_timer_witness:
  "sublist ''studio'' (hostname studio_page) \<and>
   active (run [Click] studio_page) \<and>
   timers (run [Click, Advance 100, Click] studio_page) = [] \<and>
   next_timer (run [Click, Advance 100, Click] studio_page) = 1 \<and>
   intervalID (run [Click, Advance 100, Click] studio_page) = None"
  using studio_starts_no_timer [of studio_page "[Click, Advance 100, Click]"]
  by (simp add: page_defs eval_defs sublist_Cons_right)

subsection \<open>C6: one timer per activation\<close>

text \<open>
  Adding the \<open>disable-click\<close> token does not make the text \<open>review-button--active\<close>
  appear in the class attribute: an occurrence in the longer text lies in one of the two
  parts, since it holds no space.
\<close>

lemma sublist_spaced:
  assumes "CHR '' '' \<notin> set n"
  shows "sublist n (xs @ CHR '' '' # ys) \<longleftrightarrow> sublist n xs \<or> sublist n ys"
proof
  assume "sublist n (xs @ CHR '' '' # ys)"
  then consider "sublist n xs" | "sublist n (CHR '' '' # ys)"
    | xs1 xs2 where "n = xs1 @ xs2" "suffix xs1 xs" "prefix xs2 (CHR '' '' # ys)"
    by (auto simp: sublist_append)
  then show "sublist n xs \<or> sublist n ys"
  proof cases
    case 1
    then show ?thesis by simp
  next
    case 2
    with assms show ?thesis by (auto simp: sublist_Cons_right prefix_Cons)
  next
    case 3
    with assms have "xs2 = []" by (auto simp: prefix_Cons)
    with 3 show ?thesis by (auto intro: suffix_imp_sublist)
  qed
next
  assume "sublist n xs \<or> sublist n ys"
  then show "sublist n (xs @ CHR '' '' # ys)"
    by (auto simp: sublist_append sublist_Cons_right)
qed

lemma class_attr_snoc: "cs \<noteq> [] \<Longrightarrow> class_attr (cs @ [d]) = class_attr cs @ CHR '' '' # d"
  by (induction cs rule: class_attr.induct) simp_all

lemma includes_addClass:
  assumes "CHR '' '' \<notin> set n" and "\<not> sublist n d"
  shows "str_includes (class_attr (addClass cs d)) n = str_includes (class_attr cs) n"
proof (cases "hasClass cs d \<or> cs = []")
  case True
  with assms(2) show ?thesis
    by (auto simp: addClass_def str_includes_sublist)
next
  case False
  with assms show ?thesis
    by (simp add: addClass_def str_includes_sublist class_attr_snoc sublist_spaced)
qed

lemma includes_debounce:
  "str_includes (class_attr (btn_class (lazy_load (debounce s)))) ''review-button--active'' =
   str_includes (class_attr (btn_class s)) ''review-button--active''"
  by (simp add: includes_addClass sublist_code)

lemma click_start:
  assumes "indexOf (hostname s) ''studio'' = - 1" and "\<not> debounced s"
    and "\<not> str_includes (class_attr (btn_class s)) ''review-button--active''"
  shows "timers (snd (click s)) = timers s @ [next_timer s]"
    and "next_timer (snd (click s)) = Suc (next_timer s)"
    and "intervalID (snd (click s)) = Some (next_timer s)"
proof -
  from assms(3)
  have "\<not> str_includes (class_attr (btn_class (lazy_load (debounce s)))) ''review-button--active''"
    by (simp only: includes_debounce not_False_eq_True)
  note start = poll_timer_start [OF this]
  show "timers (snd (click s)) = timers s @ [next_timer s]"
    using assms(1,2) by (cases s rule: click_cases) (simp_all add: start)
  show "next_timer (snd (click s)) = Suc (next_timer s)"
    using assms(1,2) by (cases s rule: click_cases) (simp_all add: start)
  show "intervalID (snd (click s)) = Some (next_timer s)"
    using assms(1,2) by (cases s rule: click_cases) (simp_all add: start)
qed

lemma click_stop:
  assumes "indexOf (hostname s) ''studio'' = - 1" and "\<not> debounced s" and "active s"
  shows "timers (snd (click s)) =
           (case intervalID s of None \<Rightarrow> timers s | Some i \<Rightarrow> removeAll i (timers s))"
    and "next_timer (snd (click s)) = next_timer s"
proof -
  from assms(3) have "active (lazy_load (debounce s))" by simp
  then have
    "str_includes (class_attr (btn_class (lazy_load (debounce s)))) ''review-button--active''"
    by (rule active_includes)
  note stop = poll_timer_stop [OF this]
  show "timers (snd (click s)) =
           (case intervalID s of None \<Rightarrow> timers s | Some i \<Rightarrow> removeAll i (timers s))"
    using assms(1,2) by (cases s rule: click_cases) (simp_all add: stop split: option.split)
  show "next_timer (snd (click s)) = next_timer s"
    using assms(1,2) by (cases s rule: click_cases) (simp_all add: stop)
qed

text \<open>Debounced clicks and pauses leave the timers, the handle and the active class alone.\<close>

lemma run_quiet:
  "quiet es s \<Longrightarrow>
   timers (run es s) = timers s \<and> next_timer (run es s) = next_timer s \<and>
   intervalID (run es s) = intervalID s \<and> hostname (run es s) = hostname s \<and>
   active (run es s) = active s"
proof (induction es s rule: quiet.induct)
  case (1 s)
  then show ?case by simp
next
  case (2 es s)
  then show ?case by (simp add: click_skipped)
next
  case (3 d es s)
  then show ?case by simp
qed

text \<open>
  C6, as the code has it. Outside Studio, a processed click on a button whose class
  attribute does not hold the text \<open>review-button--active\<close> starts one polling timer
  and stores its handle. If that handler runs to the end, the button is active, and the
  next processed click (after any debounced clicks and pauses) stops the timer with that
  handle and starts none: when the handle was fresh, the timers that run afterwards are
  those that ran before the first click.
\<close>

theorem activate_deactivate_one_timer:
  "\<not> sublist ''studio'' (hostname s) \<and> \<not> debounced s \<and>
   \<not> str_includes (class_attr (btn_class s)) ''review-button--active'' \<longrightarrow>
     timers (snd (click s)) = timers s @ [next_timer s] \<and>
     next_timer (snd (click s)) = Suc (next_timer s) \<and>
     intervalID (snd (click s)) = Some (next_timer s) \<and>
     (fst (click s) = Completed \<and> quiet es (snd (click s)) \<and>
      \<not> debounced (run es (snd (click s))) \<longrightarrow>
        active (run es (snd (click s))) \<and>
        timers (snd (click (run es (snd (click s))))) =
          removeAll (next_timer s) (timers s) \<and>
        next_timer (snd (click (run es (snd (click s))))) = Suc (next_timer s) \<and>
        (next_timer s \<notin> set (timers s) \<longrightarrow>
           timers (snd (click (run es (snd (click s))))) = timers s))"
proof (intro impI)
  assume h: "\<not> sublist ''studio'' (hostname s) \<and> \<not> debounced s \<and>
    \<not> str_includes (class_attr (btn_class s)) ''review-button--active''"
  then have lms: "indexOf (hostname s) ''studio'' = - 1" by (simp add: indexOf_sublist)
  from h have nd: "\<not> debounced s"
    and ni: "\<not> str_includes (class_attr (btn_class s)) ''review-button--active''"
    by simp_all
  note start = click_start [OF lms nd ni]
  let ?s1 = "snd (click s)"
  have second: "active (run es ?s1) \<and>
      timers (snd (click (run es ?s1))) = removeAll (next_timer s) (timers s) \<and>
      next_timer (snd (click (run es ?s1))) = Suc (next_timer s) \<and>
      (next_timer s \<notin> set (timers s) \<longrightarrow> timers (snd (click (run es ?s1))) = timers s)"
    if c: "fst (click s) = Completed" and q: "quiet es ?s1" and nd2: "\<not> debounced (run es ?s1)"
  proof -
    from ni have "\<not> active s" using active_includes by blast
    with c have a1: "active ?s1" by (simp add: click_completed_active)
    note kept = run_quiet [OF q]
    from kept a1 have a2: "active (run es ?s1)" by simp
    from kept lms have lms2: "indexOf (hostname (run es ?s1)) ''studio'' = - 1" by simp
    note stop = click_stop [OF lms2 nd2 a2]
    have t: "timers (snd (click (run es ?s1))) = removeAll (next_timer s) (timers s)"
      using stop(1) kept start by simp
    have n: "next_timer (snd (click (run es ?s1))) = Suc (next_timer s)"
      using stop(2) kept start by simp
    from a2 t n show ?thesis by (simp add: removeAll_id)
  qed
  from start second
  show "timers (snd (click s)) = timers s @ [next_timer s] \<and>
     next_timer (snd (click s)) = Suc (next_timer s) \<and>
     intervalID (snd (click s)) = Some (next_timer s) \<and>
     (fst (click s) = Completed \<and> quiet es (snd (click s)) \<and>
      \<not> debounced (run es (snd (click s))) \<longrightarrow>
        active (run es (snd (click s))) \<and>
        timers (snd (click (run es (snd (click s))))) =
          removeAll (next_timer s) (timers s) \<and>
        next_timer (snd (click (run es (snd (click s))))) = Suc (next_timer s) \<and>
        (next_timer s \<notin> set (timers s) \<longrightarrow>
           timers (snd (click (run es (snd (click s))))) = timers s))"
    by blast
qed

text \<open>
  On the LMS page: a click, a debounced click 40ms later, and the next processed click
  100ms after the first.
\<close>

theorem activate_deactivate_one_timer_witness:
  "\<not> sublist ''studio'' (hostname lms_page) \<and> \<not> debounced lms_page \<and>
   \<not> str_includes (class_attr (btn_class lms_page)) ''review-button--active'' \<and>
   fst (click lms_page) = Completed \<and>
   quiet [Advance 40, Click, Advance 60] (snd (click lms_page)) \<and>
   \<not> debounced (run [Advance 40, Click, Advance 60] (snd (click lms_page))) \<and>
   next_timer lms_page \<notin> set (timers lms_page) \<and>
   timers (snd (click lms_page)) = [1] \<and>
   intervalID (snd (click lms_page)) = Some 1 \<and>
   timers (snd (click (run [Advance 40, Click, Advance 60] (snd (click lms_page))))) = [] \<and>
   next_timer (snd (click (run [Advance 40, Click, Advance 60] (snd (click lms_page))))) = 2"
  using activate_deactivate_one_timer [of lms_page "[Advance 40, Click, Advance 60]"]
  by (simp add: page_defs eval_defs sublist_Cons_right)

text \<open>
  The claim as stated fails in two ways. Line 31 looks for the text
  \<open>review-button--active\<close> in the class attribute: a button without that class but with
  a class whose name contains it gets no timer. And when the handler throws on line 43
  (fallback content in the iframe, a document of another origin) the first click has
  started a timer but not activated the button, so the next processed click starts a
  second timer and stops none.
\<close>

theorem activate_deactivate_one_timer_counterexample:
  "\<not> sublist ''studio'' (hostname lookalike_page) \<and> \<not> debounced lookalike_page \<and>
   \<not> active lookalike_page \<and>
   fst (click lookalike_page) = Completed \<and>
   timers (snd (click lookalike_page)) = [] \<and>
   next_timer (snd (click lookalike_page)) = next_timer lookalike_page \<and>
   \<not> sublist ''studio'' (hostname foreign_page) \<and> \<not> debounced foreign_page \<and>
   \<not> active foreign_page \<and>
   fst (click foreign_page) = Threw TypeError \<and>
   timers (snd (click foreign_page)) = [1] \<and>
   \<not> debounced (advance 100 (snd (click foreign_page))) \<and>
   timers (snd (click (advance 100 (snd (click foreign_page))))) = [1, 2]"
  by (simp add: page_defs eval_defs sublist_Cons_right)

subsection \<open>C7: the debounce window ends\<close>

text \<open>What a click that is not debounced does.\<close>

lemma throws_404_lazy_load [simp]: "throws_404 (lazy_load s) = throws_404 s"
  by (simp add: throws_404_def lazy_load_def split: option.split js_value.split)

lemma throws_404_debounce [simp]: "throws_404 (debounce s) = throws_404 s"
  by (simp add: throws_404_def)

lemma throws_404_poll_timer [simp]: "throws_404 (poll_timer s) = throws_404 s"
  by (simp add: throws_404_def)







text \<open>
  A stored interval handle lies below the handles that timeouts are given, on every page
  reached from one where it does and where intervals are not ahead of timeouts: on such
  pages line 32 never cancels the timeout of line 15.
\<close>

lemma click_handles_apart: "handles_apart s \<Longrightarrow> handles_apart (snd (click s))"
proof (cases s rule: click_cases)
  case Skipped
  assume "handles_apart s"
  with Skipped show ?thesis by simp
next
  case Studio
  assume "handles_apart s"
  with Studio show ?thesis by (simp add: handles_apart_def split: option.splits)
next
  case Threw
  assume "handles_apart s"
  then have "handles_apart (poll_timer (lazy_load (debounce s)))"
    by (cases "str_includes (class_attr (btn_class (lazy_load (debounce s))))
          ''review-button--active''")
       (simp_all add: handles_apart_def poll_timer_stop poll_timer_start split: option.splits)
  with Threw show ?thesis by simp
next
  case Completed
  assume "handles_apart s"
  then have "handles_apart (poll_timer (lazy_load (debounce s)))"
    by (cases "str_includes (class_attr (btn_class (lazy_load (debounce s))))
          ''review-button--active''")
       (simp_all add: handles_apart_def poll_timer_stop poll_timer_start split: option.splits)
  with Completed show ?thesis by (simp add: handles_apart_def split: option.splits)
qed

lemma advance_handles_apart: "handles_apart s \<Longrightarrow> handles_apart (advance d s)"
  by (simp add: handles_apart_def advance_def Let_def split: option.splits)

lemma run_handles_apart: "handles_apart s \<Longrightarrow> handles_apart (run es s)"
proof (induction es arbitrary: s)
  case Nil
  then show ?case by simp
next
  case (Cons e es)
  then have "handles_apart (step e s)"
    by (cases e) (simp_all add: click_handles_apart advance_handles_apart)
  then show ?case using Cons.IH by simp
qed

lemma handles_apart_no_cancel:
  "handles_apart s \<Longrightarrow> intervalID (run es s) \<noteq> Some (next_timeout (run es s))"
  using run_handles_apart [of s es] by (auto simp: handles_apart_def)




subsection \<open>C8: the 404 check changes nothing\<close>

text \<open>
  C8. The 404 check of lines 42 to 51 returns the page it was given, whatever the title
  of the framed document, or throws. So on a processed click outside Studio, where the
  check is reached, the page that the three toggles are applied to (or that the exception
  leaves behind) is the page as the timer branch left it: \<open>src\<close>, classes,
  \<open>aria-expanded\<close> and timers are untouched by the check.
\<close>

theorem detect_404_inert:
  "(detect_404 p = Inr p \<or> detect_404 p = Inl TypeError) \<and>
   (\<not> debounced s \<and> indexOf (hostname s) ''studio'' = - 1 \<longrightarrow>
      click s = (Completed, toggles (poll_timer (lazy_load (debounce s)))) \<or>
      click s = (Threw TypeError, poll_timer (lazy_load (debounce s))))"
proof (intro conjI impI)
  show "detect_404 p = Inr p \<or> detect_404 p = Inl TypeError" by (rule detect_404_cases)
next
  assume "\<not> debounced s \<and> indexOf (hostname s) ''studio'' = - 1"
  then show "click s = (Completed, toggles (poll_timer (lazy_load (debounce s)))) \<or>
      click s = (Threw TypeError, poll_timer (lazy_load (debounce s)))"
    by (cases s rule: click_cases) simp_all
qed

text \<open>A framed document titled as an error page: the check finds it and does nothing.\<close>

theorem detect_404_inert_witness:
  "\<not> debounced not_found_page \<and> indexOf (hostname not_found_page) ''studio'' = - 1 \<and>
   0 \<le> indexOf (toLowerCase ''404 Page Not Found'') ''page not found'' \<and>
   detect_404 not_found_page = Inr not_found_page \<and>
   click not_found_page =
     (Completed, toggles (poll_timer (lazy_load (debounce not_found_page)))) \<and>
   iframe_src (snd (click not_found_page)) = Some ''https://courses.edx.org/gone''"
  using detect_404_inert [of not_found_page not_found_page]
  by (simp add: page_defs eval_defs)

subsection \<open>C9: the content panel\<close>

lemma visible_toggles [simp]: "visible (toggles s) = (\<not> visible s)"
  by (simp add: visible_def hasClass_toggleClass)

lemma click_completed_content:
  "fst (click s) = Completed \<Longrightarrow>
   content_class (snd (click s)) = toggleClass (content_class s) ''review-content--active''"
  by (cases s rule: click_cases) simp_all

lemma click_other_content:
  "fst (click s) \<noteq> Completed \<Longrightarrow> content_class (snd (click s)) = content_class s"
  by (cases s rule: click_cases) simp_all

lemma click_visible_active:
  "(visible (snd (click s)) = active (snd (click s))) = (visible s = active s)"
proof (cases "fst (click s) = Completed")
  case True
  then show ?thesis
    using click_completed_content [of s] click_completed_active [of s]
    by (auto simp: visible_def hasClass_toggleClass)
next
  case False
  then show ?thesis
    using click_other_content [of s] click_other_active [of s] by (simp add: visible_def)
qed

lemma visible_advance [simp]: "visible (advance d s) = visible s"
  by (simp add: visible_def)

lemma run_visible_active:
  "(visible (run es s) = active (run es s)) = (visible s = active s)"
proof (induction es arbitrary: s)
  case Nil
  then show ?case by simp
next
  case (Cons e es)
  have "(visible (step e s) = active (step e s)) = (visible s = active s)"
    by (cases e) (simp_all add: click_visible_active)
  with Cons.IH [of "step e s"] show ?case by simp
qed

text \<open>
  C9, as the code has it. A click whose handler runs to the end toggles
  \<open>review-content--active\<close> on the panel once; every other click (debounced, or one whose
  handler throws before line 55) leaves the panel's classes alone. The button's class is
  toggled by the same clicks, so on a page where the panel is visible exactly when the
  button is active this stays so after every run of clicks and pauses.
\<close>

theorem content_panel_toggle:
  "(fst (click s) = Completed \<longrightarrow>
      content_class (snd (click s)) = toggleClass (content_class s) ''review-content--active'' \<and>
      visible (snd (click s)) = (\<not> visible s)) \<and>
   (fst (click s) \<noteq> Completed \<longrightarrow> content_class (snd (click s)) = content_class s) \<and>
   (visible s = active s \<longrightarrow> visible (run es s) = active (run es s))"
proof (intro conjI impI)
  assume c: "fst (click s) = Completed"
  then show "content_class (snd (click s)) =
      toggleClass (content_class s) ''review-content--active''"
    by (rule click_completed_content)
  then show "visible (snd (click s)) = (\<not> visible s)"
    by (simp add: visible_def hasClass_toggleClass)
next
  assume "fst (click s) \<noteq> Completed"
  then show "content_class (snd (click s)) = content_class s" by (rule click_other_content)
next
  assume "visible s = active s"
  then show "visible (run es s) = active (run es s)" by (simp add: run_visible_active)
qed

text \<open>On the LMS page the panel opens with the button, and closes with it.\<close>

theorem content_panel_toggle_witness:
  "fst (click lms_page) = Completed \<and>
   visible lms_page = active lms_page \<and>
   visible (snd (click lms_page)) \<and> active (snd (click lms_page)) \<and>
   fst (click (snd (click lms_page))) = Skipped \<and>
   content_class (snd (click (snd (click lms_page)))) = content_class (snd (click lms_page)) \<and>
   \<not> visible (run [Click, Advance 100, Click] lms_page) \<and>
   \<not> active (run [Click, Advance 100, Click] lms_page)"
  using content_panel_toggle [of lms_page "[Click, Advance 100, Click]"]
    content_panel_toggle [of "snd (click lms_page)" "[]"]
  by (simp add: page_defs eval_defs)

text \<open>
  The claim as stated, for every processed click, fails where the handler throws: with no
  iframe under the panel the click is processed (the flag is set, a timer started), line
  42 throws, and the panel's classes are what they were.
\<close>

theorem content_panel_toggle_counterexample:
  "\<not> debounced bare_page \<and>
   fst (click bare_page) = Threw TypeError \<and>
   debounced (snd (click bare_page)) \<and>
   content_class (snd (click bare_page)) = content_class bare_page \<and>
   \<not> visible (snd (click bare_page))"
  by (simp add: page_defs eval_defs)

subsection \<open>C10: strict comparisons\<close>

text \<open>
  C10. The lazy load compares the \<open>src\<close> with the empty string: when \<open>attr('src')\<close> is
  \<open>undefined\<close> (no \<open>src\<close> attribute) no run of clicks and pauses gives the iframe a
  \<open>src\<close>. The toggle of line 59 compares \<open>aria-expanded\<close> with \<open>'true'\<close>: every other
  value, a missing attribute too, becomes \<open>'true'\<close> on a click whose handler runs to
  the end.
\<close>

theorem strict_comparisons:
  "(iframe_src s = None \<longrightarrow> iframe_src (run es s) = None) \<and>
   (a \<noteq> Some ''true'' \<longrightarrow> toggle_aria a = ''true'') \<and>
   (fst (click s) = Completed \<and> aria_expanded s \<noteq> Some ''true'' \<longrightarrow>
      aria_expanded (snd (click s)) = Some ''true'')"
proof (intro conjI impI)
  assume "iframe_src s = None"
  then show "iframe_src (run es s) = None" using run_src_kept [of s es] by simp
next
  assume "a \<noteq> Some ''true''"
  then show "toggle_aria a = ''true''" by (simp add: toggle_aria_def)
next
  assume "fst (click s) = Completed \<and> aria_expanded s \<noteq> Some ''true''"
  then show "aria_expanded (snd (click s)) = Some ''true''"
    using click_completed_aria [of s] by (simp add: expanded_def)
qed

text \<open>
  An iframe without \<open>src\<close> and a button without \<open>aria-expanded\<close>; \<open>'TRUE'\<close> is not
  \<open>'true'\<close>.
\<close>

theorem strict_comparisons_witness:
  "iframe_src no_attr_page = None \<and>
   iframe_src (run [Click, Advance 100, Click] no_attr_page) = None \<and>
   Some ''TRUE'' \<noteq> Some ''true'' \<and> toggle_aria (Some ''TRUE'') = ''true'' \<and>
   fst (click no_attr_page) = Completed \<and> aria_expanded no_attr_page = None \<and>
   aria_expanded (snd (click no_attr_page)) = Some ''true''"
  using strict_comparisons [of no_attr_page "[Click, Advance 100, Click]" "Some ''TRUE''"]
  by (simp add: page_defs eval_defs)

end
